theory Spec2Isabelle
  imports Main
begin

section \<open>The correlation store: class QueryStorage\<close>

text \<open>
  \<^verbatim>\<open>QueryStorage._storage\<close> is a Python dict from query identifiers to URL lists.
  Every access happens inside \<^verbatim>\<open>async with self._lock\<close>, so each method runs as one
  atomic step; the model passes the dict explicitly and returns the updated one.
\<close>

type_synonym storage = "string \<rightharpoonup> string list"

text \<open>
  What \<^verbatim>\<open>retrieve_query\<close> hands to its caller is a Python object; the caller tests it
  with \<^verbatim>\<open>is None\<close>, so the model keeps \<^verbatim>\<open>None\<close> apart from a list.
\<close>

datatype pyval = PyNone | PyList "string list"

definition QueryStorage_init :: storage where
  "QueryStorage_init = Map.empty"

text \<open>\<^verbatim>\<open>self._storage[query_id] = urls\<close>\<close>

definition store_query :: "storage \<Rightarrow> string \<Rightarrow> string list \<Rightarrow> storage" where
  "store_query st query_id urls = st(query_id \<mapsto> urls)"

text \<open>\<^verbatim>\<open>return self._storage.pop(query_id, [])\<close>: the value and the dict without the key.\<close>

definition retrieve_query :: "storage \<Rightarrow> string \<Rightarrow> pyval \<times> storage" where
  "retrieve_query st query_id =
     (case st query_id of
        None \<Rightarrow> (PyList [], st)
      | Some urls \<Rightarrow> (PyList urls, st(query_id := None)))"

subsection \<open>The URL-lookup endpoint: get_urls\<close>

datatype body = ErrorBody string | UrlsBody pyval

record response =
  status_code :: nat
  content :: body

text \<open>
  \<^verbatim>\<open>urls = await ...retrieve_query(query_id)\<close>, then the 404 answer when
  \<^verbatim>\<open>urls is None\<close> and \<^verbatim>\<open>{"urls": urls}\<close> (status 200) otherwise.
\<close>

definition get_urls :: "storage \<Rightarrow> string \<Rightarrow> response \<times> storage" where
  "get_urls st query_id =
     (case retrieve_query st query_id of
        (urls, st') \<Rightarrow>
          if urls = PyNone
          then (\<lparr>status_code = 404,
                 content = ErrorBody ''URLs not available yet or invalid query ID''\<rparr>, st')
          else (\<lparr>status_code = 200, content = UrlsBody urls\<rparr>, st'))"

section \<open>Python strings and dicts\<close>

text \<open>
  Strings are character lists. The source only compares, concatenates and splits at ASCII
  characters, which behave alike on code points and on UTF-8 bytes.
\<close>

abbreviation NL :: string where
  "NL \<equiv> [CHR 0x0A]"

abbreviation QUOTE :: string where
  "QUOTE \<equiv> [CHR 0x27]"

text \<open>\<^verbatim>\<open>s.startswith(p)\<close>\<close>

fun startswith :: "string \<Rightarrow> string \<Rightarrow> bool" where
  "startswith s [] = True"
| "startswith [] (p # ps) = False"
| "startswith (c # cs) (p # ps) = (c = p \<and> startswith cs ps)"

text \<open>\<^verbatim>\<open>sub in s\<close> on strings: \<^verbatim>\<open>sub\<close> occurs somewhere in \<^verbatim>\<open>s\<close> as a contiguous run.\<close>

fun str_in :: "string \<Rightarrow> string \<Rightarrow> bool" where
  "str_in sub [] = (sub = [])"
| "str_in sub (c # cs) = (startswith (c # cs) sub \<or> str_in sub cs)"

text \<open>\<^verbatim>\<open>s.split(sep)\<close> for a one-character separator: never an empty list.\<close>

fun split_on :: "char \<Rightarrow> string \<Rightarrow> string list" where
  "split_on sep [] = [[]]"
| "split_on sep (c # cs) =
     (if c = sep then [] # split_on sep cs
      else (case split_on sep cs of
              [] \<Rightarrow> [[c]]
            | w # ws \<Rightarrow> (c # w) # ws))"

text \<open>The decimal numeral that an f-string prints for a non-negative \<^verbatim>\<open>int\<close>.\<close>

fun str_nat :: "nat \<Rightarrow> string" where
  "str_nat n =
     (if n < 10 then [''0123456789'' ! n]
      else str_nat (n div 10) @ [''0123456789'' ! (n mod 10)])"

declare str_nat.simps [simp del]

text \<open>
  \<^verbatim>\<open>d[k] = v\<close> on a dict, kept as its item list in insertion order: an existing key keeps
  its place and takes the new value, a new key goes to the end.
\<close>

fun dict_set :: "('k \<times> 'v) list \<Rightarrow> 'k \<Rightarrow> 'v \<Rightarrow> ('k \<times> 'v) list" where
  "dict_set [] k v = [(k, v)]"
| "dict_set ((k', v') # d) k v =
     (if k' = k then (k', v) # d else (k', v') # dict_set d k v)"

section \<open>Errors\<close>

datatype error =
    TypeError
  | IndexError
  | NameError
  | HTTPException nat string

text \<open>How a generator ends: by reaching its end, or by an exception leaving it.\<close>

datatype ending = Finished | Propagated string

section \<open>The query endpoint\<close>

text \<open>
  \<^verbatim>\<open>not data.get(key)\<close>: the key is missing, or its value is the empty string. The request
  body is a dict of strings, as the annotation \<^verbatim>\<open>Dict[str, str]\<close> says.
\<close>

definition falsy :: "string option \<Rightarrow> bool" where
  "falsy v = (case v of None \<Rightarrow> True | Some s \<Rightarrow> s = [])"

fun check_required_loop :: "(string \<rightharpoonup> string) \<Rightarrow> string list \<Rightarrow> error + unit" where
  "check_required_loop data [] = Inr ()"
| "check_required_loop data (key # keys) =
     (if falsy (data key)
      then Inl (HTTPException 400 (''Missing required field: '' @ QUOTE @ key @ QUOTE))
      else check_required_loop data keys)"

text \<open>The source runs the same loop twice.\<close>

definition check_required :: "(string \<rightharpoonup> string) \<Rightarrow> string list \<Rightarrow> error + unit" where
  "check_required data keys =
     (case check_required_loop data keys of
        Inl e \<Rightarrow> Inl e
      | Inr u \<Rightarrow> check_required_loop data keys)"

text \<open>
  \<^verbatim>\<open>rag_query\<close> up to its response headers: validation first, then the identifier minted
  by \<^verbatim>\<open>uuid.uuid4()\<close> (a parameter here) is returned as the \<^verbatim>\<open>X-Query-ID\<close> header.
\<close>

definition rag_query :: "(string \<rightharpoonup> string) \<Rightarrow> string \<Rightarrow> error + string" where
  "rag_query data uuid4 =
     (case check_required data [''website'', ''timestamp'', ''query''] of
        Inl e \<Rightarrow> Inl e
      | Inr u \<Rightarrow> Inr uuid4)"

subsection \<open>Generators and what they do\<close>

text \<open>
  A run of a generator is the list of what it does, in order: the lines it yields to the
  caller, what it prints on the server's console, and the calls it makes to the
  \<^verbatim>\<open>helper\<close> module.
\<close>

datatype event =
    Yield string
  | Print string
  | Call_scrape_link string
  | Call_save_to_gcloud "(string \<times> string) list" string
  | Call_download_blob_from_gcloud string
  | Call_store_to_weaviate string

text \<open>The stream delivered to the caller.\<close>

fun yielded :: "event list \<Rightarrow> string list" where
  "yielded [] = []"
| "yielded (Yield s # evs) = s # yielded evs"
| "yielded (e # evs) = yielded evs"

subsection \<open>process_streaming_response\<close>

text \<open>
  \<^verbatim>\<open>local_streaming_response.response_gen\<close> is consumed once, front to back. Each of its
  steps either produces a token (a string, or \<^verbatim>\<open>None\<close>) or raises; a step
  \<open>RaisesCancelledError\<close> is the point where \<^verbatim>\<open>asyncio.CancelledError\<close> is raised
  inside the \<^verbatim>\<open>try\<close> block, the cancellation that the \<^verbatim>\<open>except\<close> clause handles. The
  run is the run to the end of the generator: what it yields, what it prints, and how it
  ends.
\<close>

datatype token_event =
    Produces "string option"
  | RaisesCancelledError
  | Raises string

fun process_streaming_response :: "token_event list \<Rightarrow> event list \<times> ending" where
  "process_streaming_response [] = ([], Finished)"
| "process_streaming_response (Produces text # rest) =
     (case process_streaming_response rest of
        (evs, r) \<Rightarrow>
          (case text of
             None \<Rightarrow> (evs, r)
           | Some s \<Rightarrow>
               if s \<noteq> []
               then (Print (''Yielding: ['' @ s @ '']'') # Yield s # evs, r)
               else (evs, r)))"
| "process_streaming_response (RaisesCancelledError # rest) =
     ([Print ''Streaming cancelled''], Finished)"
| "process_streaming_response (Raises e # rest) = ([], Propagated e)"

subsection \<open>process_url_extraction\<close>

text \<open>
  The loop over \<^verbatim>\<open>extracted_urls\<close>, with \<^verbatim>\<open>unique_urls\<close> as its state:
  \<^verbatim>\<open>if url not in unique_urls: unique_urls.append(url)\<close>
\<close>

fun unique_urls_loop :: "string list \<Rightarrow> string list \<Rightarrow> string list" where
  "unique_urls_loop unique_urls [] = unique_urls"
| "unique_urls_loop unique_urls (url # rest) =
     unique_urls_loop
       (if url \<notin> set unique_urls then unique_urls @ [url] else unique_urls) rest"

text \<open>
  \<^verbatim>\<open>extracted_urls\<close> is what \<^verbatim>\<open>helper.extract_document_urls(streaming_response)\<close>
  returned.
\<close>

definition process_url_extraction :: "string \<Rightarrow> string list \<Rightarrow> storage \<Rightarrow> storage" where
  "process_url_extraction query_id extracted_urls query_storage =
     store_query query_storage query_id (unique_urls_loop [] extracted_urls)"

section \<open>The scraper endpoints\<close>

subsection \<open>From the website reference to the sitemap URL\<close>

text \<open>\<^verbatim>\<open>s[-1]\<close>: the last character, or IndexError on the empty string.\<close>

definition last_char :: "string \<Rightarrow> error + char" where
  "last_char s = (if s = [] then Inl IndexError else Inr (last s))"

text \<open>
  The statements that \<^verbatim>\<open>sitemap\<close> (lines 402 to 410) and \<^verbatim>\<open>scrape_sitemap\<close> (lines 463
  to 470) both run on the website reference.
\<close>

definition sitemap_url :: "string \<Rightarrow> error + string" where
  "sitemap_url website =
     (let sitemap = (if \<not> str_in ''https://'' website then ''https://'' @ website
                     else website)
      in if \<not> str_in ''sitemap.xml'' sitemap
         then (case last_char sitemap of
                 Inl e \<Rightarrow> Inl e
               | Inr c \<Rightarrow>
                   if c \<noteq> CHR ''/'' then Inr (sitemap @ ''/sitemap.xml'')
                   else Inr (sitemap @ ''sitemap.xml''))
         else Inr sitemap)"

text \<open>
  In \<^verbatim>\<open>scrape_sitemap\<close> the reference is \<^verbatim>\<open>data.get('text')\<close>, which is \<^verbatim>\<open>None\<close> when the
  body has no such field; \<^verbatim>\<open>"https://" not in None\<close> raises TypeError.
\<close>

definition scrape_sitemap_url :: "string option \<Rightarrow> error + string" where
  "scrape_sitemap_url text = (case text of None \<Rightarrow> Inl TypeError | Some s \<Rightarrow> sitemap_url s)"

text \<open>
  \<^verbatim>\<open>link_split = sitemap.split('/')\<close>, then \<^verbatim>\<open>website_name = link_split[2]\<close> if the list is
  not empty. Were it empty, \<^verbatim>\<open>website_name\<close> would stay unbound.
\<close>

definition website_name_of :: "string \<Rightarrow> error + string" where
  "website_name_of sitemap =
     (let link_split = split_on (CHR ''/'') sitemap
      in if link_split \<noteq> []
         then (if 2 < length link_split then Inr (link_split ! 2) else Inl IndexError)
         else Inl NameError)"

subsection \<open>The helper module\<close>

text \<open>
  The module \<^verbatim>\<open>api.helper\<close> is not among the sources, so its functions are parameters
  of the model, typed as the endpoints use them:
  \<^item> \<open>get_sitemap_attributes\<close> gives the \<^verbatim>\<open>'df'\<close> entry of the result: the page URLs in
    sitemap order, so that \<^verbatim>\<open>df.shape[0]\<close> is their number and \<^verbatim>\<open>list(df)\<close> the URLs.
  \<^item> \<open>scrape_link\<close> fetches over the network, so one URL may scrape differently on two
    calls: it takes the number of the page being scraped as well. It returns a dict
    (\<open>Inr\<close>), or raises an exception \<^verbatim>\<open>e\<close>, kept as the text of \<^verbatim>\<open>str(e)\<close> (\<open>Inl\<close>).
  \<^item> \<open>save_to_gcloud\<close> and \<open>download_blob_from_gcloud\<close> return the flag that the
    generator tests; \<open>store_to_weaviate\<close> returns the updates it yields. The source
    catches no exception around these three calls; the model covers the runs in which
    they return.
  \<^item> \<open>str_KeyError k\<close> is \<^verbatim>\<open>str(KeyError(k))\<close>, the \<^verbatim>\<open>repr\<close> of the key.
  \<^item> \<open>now_strftime\<close> is \<^verbatim>\<open>datetime.now().strftime('%Y-%m-%dT%H-%M-%S')\<close>.
\<close>

record helper =
  get_sitemap_attributes :: "string \<Rightarrow> string list"
  scrape_link :: "nat \<Rightarrow> string \<Rightarrow> string + (string \<rightharpoonup> string)"
  save_to_gcloud :: "(string \<times> string) list \<Rightarrow> string \<Rightarrow> bool"
  download_blob_from_gcloud :: "string \<Rightarrow> bool"
  store_to_weaviate :: "string \<Rightarrow> string list"
  now_strftime :: string
  str_KeyError :: "string \<Rightarrow> string"

subsection \<open>scrape_sitemap and its generator scraping_process\<close>

text \<open>A relative link gets the base URL in front.\<close>

definition qualify :: "string \<Rightarrow> string \<Rightarrow> string" where
  "qualify website_name item =
     (if startswith item ''/'' then ''https://'' @ website_name @ item else item)"

text \<open>
  The body of the \<^verbatim>\<open>try\<close>: \<^verbatim>\<open>scraped_data = helper.scrape_link(item)\<close>, then the lookup
  \<^verbatim>\<open>scraped_data[item]\<close>. \<open>Inl\<close> carries \<^verbatim>\<open>str(e)\<close> of the exception caught.
\<close>

definition try_scrape :: "helper \<Rightarrow> nat \<Rightarrow> string \<Rightarrow> string + string" where
  "try_scrape h i item =
     (case scrape_link h i item of
        Inl e \<Rightarrow> Inl e
      | Inr scraped_data \<Rightarrow>
          (case scraped_data item of
             None \<Rightarrow> Inl (str_KeyError h item)
           | Some text \<Rightarrow> Inr text))"

text \<open>
  The \<^verbatim>\<open>for\<close> loop over the pages, with the counter \<^verbatim>\<open>i\<close> and \<^verbatim>\<open>text_dict\<close> as its
  state. It returns what the loop did and the final \<^verbatim>\<open>text_dict\<close>.
\<close>

fun scrape_pages ::
  "helper \<Rightarrow> string \<Rightarrow> nat \<Rightarrow> nat \<Rightarrow> (string \<times> string) list \<Rightarrow> string list
     \<Rightarrow> event list \<times> (string \<times> string) list" where
  "scrape_pages h website_name shape0 i text_dict [] = ([], text_dict)"
| "scrape_pages h website_name shape0 i text_dict (item0 # rest) =
     (let item = qualify website_name item0;
          i' = i + 1;
          progress = [Yield (str_nat i' @ '' of '' @ str_nat shape0 @ '': '' @ item @ NL),
                      Call_scrape_link item]
      in case try_scrape h i' item of
           Inl e \<Rightarrow>
             (case scrape_pages h website_name shape0 i' text_dict rest of
                (evs, text_dict') \<Rightarrow>
                  (progress @ Yield (''Failed to scrape '' @ item @ '': '' @ e @ NL) # evs,
                   text_dict'))
         | Inr text \<Rightarrow>
             (case scrape_pages h website_name shape0 i' (dict_set text_dict item text) rest of
                (evs, text_dict') \<Rightarrow> (progress @ evs, text_dict')))"

definition output_file_name :: "helper \<Rightarrow> string \<Rightarrow> string" where
  "output_file_name h website_name = website_name @ ''_'' @ now_strftime h @ ''.csv''"

text \<open>
  What follows the loop: the table \<^verbatim>\<open>df\<close> built from \<^verbatim>\<open>text_dict.items()\<close> is saved,
  downloaded again and stored.
\<close>

definition persist_and_ingest ::
  "helper \<Rightarrow> string \<Rightarrow> string \<Rightarrow> (string \<times> string) list \<Rightarrow> event list" where
  "persist_and_ingest h sitemap website_name text_dict =
     (let output_file = output_file_name h website_name
      in Call_save_to_gcloud text_dict output_file #
         (if save_to_gcloud h text_dict output_file
          then Yield (''Finished saving to GCP Bucket'' @ NL) #
               Call_download_blob_from_gcloud output_file #
               (if download_blob_from_gcloud h output_file
                then Yield (''Chunking and preparing documents to insert into vector store.''
                            @ NL) #
                     Call_store_to_weaviate output_file #
                     map Yield (store_to_weaviate h output_file)
                else [Print (''Error occured while downloading file to gcloud bucket.'' @ NL)])
          else [Yield (''The scraping process did not complete as expected for '' @ sitemap
                       @ NL)]))"

definition scraping_process ::
  "helper \<Rightarrow> string \<Rightarrow> string \<Rightarrow> string list \<Rightarrow> event list" where
  "scraping_process h sitemap website_name df =
     (if length df = 0
      then [Yield (''Found 0 pages to scrape in '' @ sitemap @ NL)]
      else (case scrape_pages h website_name (length df) 0 [] df of
              (evs, text_dict) \<Rightarrow> evs @ persist_and_ingest h sitemap website_name text_dict))
     @ [Yield (''All steps completed successfully.'' @ NL)]"

text \<open>
  The endpoint: \<open>Inl\<close> is an exception that leaves the handler before any response,
  \<open>Inr\<close> the run of the generator behind the streaming response.
\<close>

definition scrape_sitemap :: "helper \<Rightarrow> (string \<rightharpoonup> string) \<Rightarrow> error + event list" where
  "scrape_sitemap h data =
     (case scrape_sitemap_url (data ''text'') of
        Inl e \<Rightarrow> Inl e
      | Inr sitemap \<Rightarrow>
          (let df = get_sitemap_attributes h sitemap
           in case website_name_of sitemap of
                Inl e \<Rightarrow> Inl e
              | Inr website_name \<Rightarrow> Inr (scraping_process h sitemap website_name df)))"

section \<open>Notions used to state the properties\<close>

text \<open>
  The normalisation of the website reference as the specification words it: the scheme is
  looked for as a prefix of the string, and a string that does not contain
  \<^verbatim>\<open>sitemap.xml\<close> gets it appended, after a slash unless it ends in one.
\<close>

definition spec_sitemap_url :: "string \<Rightarrow> string" where
  "spec_sitemap_url website =
     (let sitemap = (if startswith website ''https://'' then website
                     else ''https://'' @ website)
      in if str_in ''sitemap.xml'' sitemap then sitemap
         else if last sitemap = CHR ''/'' then sitemap @ ''sitemap.xml''
         else sitemap @ ''/sitemap.xml'')"

text \<open>The position of the first occurrence of an element (the length, if it is absent).\<close>

fun first_index :: "'a list \<Rightarrow> 'a \<Rightarrow> nat" where
  "first_index [] x = 0"
| "first_index (y # ys) x = (if y = x then 0 else Suc (first_index ys x))"

text \<open>
  A helper module for concrete runs: a site of three pages given as relative links, where
  scraping page number \<open>failing\<close> times out, and where saving and downloading succeed
  as the two flags say.
\<close>

definition example_helper :: "nat \<Rightarrow> bool \<Rightarrow> bool \<Rightarrow> helper" where
  "example_helper failing saved downloaded =
     \<lparr>get_sitemap_attributes = (\<lambda>sitemap. [''/p1'', ''/p2'', ''/p3'']),
      scrape_link = (\<lambda>i item. if i = failing then Inl ''timed out''
                                else Inr [item \<mapsto> ''text of '' @ item]),
      save_to_gcloud = (\<lambda>df output_file. saved),
      download_blob_from_gcloud = (\<lambda>output_file. downloaded),
      store_to_weaviate = (\<lambda>output_file. [''Inserted 3 documents'' @ NL]),
      now_strftime = ''2023-10-06T18-11-24'',
      str_KeyError = (\<lambda>k. QUOTE @ k @ QUOTE)\<rparr>"

section \<open>Properties of the correlation store\<close>

lemma retrieve_query_never_None: "fst (retrieve_query st query_id) \<noteq> PyNone"
  by (simp add: retrieve_query_def split: option.split)

text \<open>
  Claim C2. Taking an identifier right after putting a URL list under it returns exactly
  that list and removes the entry, so that a second take returns the empty list; put is
  total and overwrites, so two puts under one identifier equal the second put alone.
\<close>

theorem C2_put_take:
  "retrieve_query (store_query st query_id urls) query_id
     = (PyList urls, (store_query st query_id urls)(query_id := None))
   \<and> snd (retrieve_query (store_query st query_id urls) query_id) query_id = None
   \<and> fst (retrieve_query (snd (retrieve_query (store_query st query_id urls) query_id)) query_id)
       = PyList []
   \<and> store_query (store_query st query_id u1) query_id u2 = store_query st query_id u2"
  by (simp add: retrieve_query_def store_query_def)

text \<open>
  Claim C1, evaluated on the code. For an identifier that was never stored, and for one
  that a prior lookup consumed, the endpoint answers alike, but with status 200 and the
  body \<^verbatim>\<open>{"urls": []}\<close>: the 404 branch of \<^verbatim>\<open>get_urls\<close> tests for \<^verbatim>\<open>None\<close>, which
  \<^verbatim>\<open>pop(query_id, [])\<close> never returns.
\<close>

theorem C1_absent_id_gets_200:
  "fst (get_urls QueryStorage_init ''q1'') = \<lparr>status_code = 200, content = UrlsBody (PyList [])\<rparr>
   \<and> fst (get_urls (snd (get_urls (store_query QueryStorage_init ''q1'' [''https://a.com/p''])
                               ''q1'')) ''q1'')
       = \<lparr>status_code = 200, content = UrlsBody (PyList [])\<rparr>"
  by (simp add: get_urls_def retrieve_query_def store_query_def QueryStorage_init_def)

text \<open>
  More generally, the lookup of any identifier that is absent from the store answers
  with status 200 and an empty list and leaves the store as it was, and no lookup at all
  answers 404.
\<close>

theorem get_urls_absent:
  "st query_id = None \<Longrightarrow>
   get_urls st query_id = (\<lparr>status_code = 200, content = UrlsBody (PyList [])\<rparr>, st)"
  by (simp add: get_urls_def retrieve_query_def)

theorem get_urls_absent_witness:
  "get_urls [''q2'' \<mapsto> [''https://a.com/p'']] ''q1''
     = (\<lparr>status_code = 200, content = UrlsBody (PyList [])\<rparr>, [''q2'' \<mapsto> [''https://a.com/p'']])"
  using get_urls_absent [of "[''q2'' \<mapsto> [''https://a.com/p'']]" "''q1''"] by simp

theorem get_urls_never_404: "status_code (fst (get_urls st query_id)) = 200"
  by (simp add: get_urls_def retrieve_query_def split: option.split)

section \<open>Properties of the query endpoint\<close>

subsection \<open>Token forwarding\<close>

lemma yielded_append: "yielded (xs @ ys) = yielded xs @ yielded ys"
  by (induction xs rule: yielded.induct) auto

lemma set_yielded: "s \<in> set (yielded evs) \<longleftrightarrow> Yield s \<in> set evs"
  by (induction evs rule: yielded.induct) auto

lemma process_streaming_response_tokens:
  "process_streaming_response (map Produces toks @ rest) =
     (concat (map (\<lambda>t. case t of
                          None \<Rightarrow> []
                        | Some s \<Rightarrow> if s \<noteq> []
                                    then [Print (''Yielding: ['' @ s @ '']''), Yield s]
                                    else []) toks)
        @ fst (process_streaming_response rest),
      snd (process_streaming_response rest))"
  by (induction toks) (auto split: prod.splits option.splits)

lemma yielded_tokens:
  "yielded (concat (map (\<lambda>t. case t of
                          None \<Rightarrow> []
                        | Some s \<Rightarrow> if s \<noteq> []
                                    then [Print (''Yielding: ['' @ s @ '']''), Yield s]
                                    else []) toks))
     = [s. Some s \<leftarrow> toks, s \<noteq> []]"
  by (induction toks) (auto split: option.splits)

text \<open>
  Claim C9. The tokens that the retrieval result produces are forwarded in their order,
  leaving out \<^verbatim>\<open>None\<close> and the empty string and nothing else. When the stream is
  cancelled after some tokens, those already produced are forwarded in the same way, the
  rest is not, and the generator ends by reaching its end: no exception leaves it.
\<close>

theorem C9_forwards_nonempty_tokens:
  "yielded (fst (process_streaming_response (map Produces toks)))
       = [s. Some s \<leftarrow> toks, s \<noteq> []]
   \<and> snd (process_streaming_response (map Produces toks)) = Finished
   \<and> yielded (fst (process_streaming_response
                     (map Produces toks @ RaisesCancelledError # rest)))
       = [s. Some s \<leftarrow> toks, s \<noteq> []]
   \<and> snd (process_streaming_response (map Produces toks @ RaisesCancelledError # rest))
       = Finished"
proof -
  have whole: "process_streaming_response (map Produces toks) =
     (concat (map (\<lambda>t. case t of
                          None \<Rightarrow> []
                        | Some s \<Rightarrow> if s \<noteq> []
                                    then [Print (''Yielding: ['' @ s @ '']''), Yield s]
                                    else []) toks), Finished)"
    using process_streaming_response_tokens [of toks "[]"] by simp
  show ?thesis
    unfolding whole
    by (simp add: process_streaming_response_tokens yielded_append yielded_tokens)
qed

subsection \<open>URL extraction\<close>

lemma first_index_less: "first_index xs x < length xs \<longleftrightarrow> x \<in> set xs"
  by (induction xs) auto

lemma first_index_append:
  "first_index (xs @ ys) x =
     (if x \<in> set xs then first_index xs x else length xs + first_index ys x)"
  by (induction xs) auto

lemma set_unique_urls_loop: "set (unique_urls_loop acc xs) = set acc \<union> set xs"
  by (induction xs arbitrary: acc) auto

lemma distinct_unique_urls_loop: "distinct acc \<Longrightarrow> distinct (unique_urls_loop acc xs)"
  by (induction xs arbitrary: acc) auto

text \<open>
  The loop keeps the order of first occurrences: the list built so far, followed by the
  URLs still to come, decides the order in the result.
\<close>

lemma order_unique_urls_loop:
  "u \<in> set (acc @ xs) \<Longrightarrow> v \<in> set (acc @ xs) \<Longrightarrow>
   first_index (unique_urls_loop acc xs) u < first_index (unique_urls_loop acc xs) v
     \<longleftrightarrow> first_index (acc @ xs) u < first_index (acc @ xs) v"
proof (induction xs arbitrary: acc)
  case Nil
  then show ?case by simp
next
  case (Cons x xs)
  show ?case
  proof (cases "x \<in> set acc")
    case False
    then have "first_index (unique_urls_loop acc (x # xs)) u
                 < first_index (unique_urls_loop acc (x # xs)) v
      \<longleftrightarrow> first_index (unique_urls_loop (acc @ [x]) xs) u
                 < first_index (unique_urls_loop (acc @ [x]) xs) v"
      by simp
    also have "\<dots> \<longleftrightarrow> first_index ((acc @ [x]) @ xs) u < first_index ((acc @ [x]) @ xs) v"
      using Cons.IH [of "acc @ [x]"] Cons.prems by simp
    finally show ?thesis by simp
  next
    case True
    then have "first_index (unique_urls_loop acc (x # xs)) u
                 < first_index (unique_urls_loop acc (x # xs)) v
      \<longleftrightarrow> first_index (unique_urls_loop acc xs) u < first_index (unique_urls_loop acc xs) v"
      by simp
    also have "\<dots> \<longleftrightarrow> first_index (acc @ xs) u < first_index (acc @ xs) v"
      using Cons.IH [of acc] Cons.prems True by auto
    also have "\<dots> \<longleftrightarrow> first_index (acc @ x # xs) u < first_index (acc @ x # xs) v"
      using True first_index_less [of acc u] first_index_less [of acc v]
      by (auto simp: first_index_append)
    finally show ?thesis .
  qed
qed

text \<open>
  Claim C5. Whatever URLs were extracted, duplicates included, the background task stores
  under the query identifier the list of the distinct URLs in first-seen order: the
  stored list has no duplicates, holds exactly the extracted URLs, and \<open>u\<close> comes before
  \<open>v\<close> in it exactly when the first occurrence of \<open>u\<close> comes before the first
  occurrence of \<open>v\<close> among the extracted ones.
\<close>

theorem C5_unique_urls_first_seen:
  "process_url_extraction query_id extracted_urls query_storage query_id
      = Some (unique_urls_loop [] extracted_urls)
   \<and> distinct (unique_urls_loop [] extracted_urls)
   \<and> set (unique_urls_loop [] extracted_urls) = set extracted_urls
   \<and> (\<forall>u \<in> set extracted_urls. \<forall>v \<in> set extracted_urls.
        first_index (unique_urls_loop [] extracted_urls) u
          < first_index (unique_urls_loop [] extracted_urls) v
        \<longleftrightarrow> first_index extracted_urls u < first_index extracted_urls v)"
  using order_unique_urls_loop [of _ "[]" extracted_urls]
  by (simp add: process_url_extraction_def store_query_def set_unique_urls_loop
      distinct_unique_urls_loop)

text \<open>
  Claim C5 on five extracted URLs, two of them repeated; the lookup that follows returns
  the three distinct URLs in first-seen order.
\<close>

theorem C5_unique_urls_first_seen_witness:
  "retrieve_query (process_url_extraction ''q1'' [''b'', ''a'', ''b'', ''c'', ''a'']
                     QueryStorage_init) ''q1''
     = (PyList [''b'', ''a'', ''c''], QueryStorage_init)
   \<and> first_index (unique_urls_loop [] [''b'', ''a'', ''b'', ''c'', ''a'']) ''a''
       < first_index (unique_urls_loop [] [''b'', ''a'', ''b'', ''c'', ''a'']) ''c''"
proof -
  have "first_index [''b'', ''a'', ''b'', ''c'', ''a''] ''a''
          < first_index [''b'', ''a'', ''b'', ''c'', ''a''] ''c''"
    by simp
  moreover have "''a'' \<in> set [''b'', ''a'', ''b'', ''c'', ''a'']"
    and "''c'' \<in> set [''b'', ''a'', ''b'', ''c'', ''a'']"
    by simp_all
  ultimately have "first_index (unique_urls_loop [] [''b'', ''a'', ''b'', ''c'', ''a'']) ''a''
       < first_index (unique_urls_loop [] [''b'', ''a'', ''b'', ''c'', ''a'']) ''c''"
    using C5_unique_urls_first_seen [of "''q1''" "[''b'', ''a'', ''b'', ''c'', ''a'']"
        QueryStorage_init]
    by blast
  then show ?thesis
    by (simp add: retrieve_query_def process_url_extraction_def store_query_def
        QueryStorage_init_def)
qed

section \<open>Properties of the scraper endpoints\<close>

subsection \<open>The sitemap URL\<close>

lemma startswith_iff: "startswith s p \<longleftrightarrow> (\<exists>r. s = p @ r)"
  by (induction s p rule: startswith.induct) auto

lemma str_in_iff: "str_in sub s \<longleftrightarrow> (\<exists>ps ss. s = ps @ sub @ ss)"
proof (induction s)
  case Nil
  then show ?case by auto
next
  case (Cons c cs)
  show ?case
  proof
    assume "str_in sub (c # cs)"
    then consider "startswith (c # cs) sub" | "str_in sub cs" by auto
    then show "\<exists>ps ss. c # cs = ps @ sub @ ss"
    proof cases
      case 1
      then obtain r where "c # cs = sub @ r" by (auto simp: startswith_iff)
      then have "c # cs = [] @ sub @ r" by simp
      then show ?thesis by blast
    next
      case 2
      then obtain ps ss where "cs = ps @ sub @ ss" using Cons.IH by auto
      then have "c # cs = (c # ps) @ sub @ ss" by simp
      then show ?thesis by blast
    qed
  next
    assume "\<exists>ps ss. c # cs = ps @ sub @ ss"
    then obtain ps ss where eq: "c # cs = ps @ sub @ ss" by blast
    show "str_in sub (c # cs)"
    proof (cases ps)
      case Nil
      then have "startswith (c # cs) sub" using eq by (auto simp: startswith_iff)
      then show ?thesis by simp
    next
      case (Cons p ps')
      then have "cs = ps' @ sub @ ss" using eq by simp
      then have "str_in sub cs" using Cons.IH by blast
      then show ?thesis by simp
    qed
  qed
qed

lemma str_in_nonempty: "str_in sub s \<Longrightarrow> sub \<noteq> [] \<Longrightarrow> s \<noteq> []"
  by (cases s) auto

lemma sitemap_url_str_in:
  "sitemap_url website = Inr
     (let sitemap = (if str_in ''https://'' website then website else ''https://'' @ website)
      in if str_in ''sitemap.xml'' sitemap then sitemap
         else if last sitemap = CHR ''/'' then sitemap @ ''sitemap.xml''
         else sitemap @ ''/sitemap.xml'')"
proof (cases "str_in ''https://'' website")
  case True
  then have "website \<noteq> []" using str_in_nonempty by blast
  with True show ?thesis
    by (simp add: sitemap_url_def last_char_def Let_def)
next
  case False
  then show ?thesis
    by (simp add: sitemap_url_def last_char_def Let_def)
qed

lemma startswith_str_in: "startswith s p \<Longrightarrow> str_in p s"
  unfolding startswith_iff str_in_iff by (metis append_Nil)

text \<open>
  Where the scheme is at the front of the reference, or nowhere in it, the source computes
  what the specification's wording gives.
\<close>

lemma sitemap_url_agrees_with_spec:
  "startswith website ''https://'' \<or> \<not> str_in ''https://'' website \<Longrightarrow>
   sitemap_url website = Inr (spec_sitemap_url website)"
  unfolding sitemap_url_str_in spec_sitemap_url_def
  using startswith_str_in [of website "''https://''"] by auto

text \<open>
  Claim C4 as stated fails on the code: the reference \<^verbatim>\<open>ai21.com/?next=https://ai21.com\<close>
  lacks the prefix \<^verbatim>\<open>https://\<close>, yet nothing is put in front of it, because the source
  tests whether \<^verbatim>\<open>https://\<close> occurs anywhere in the string.
\<close>

theorem C4_prefix_reading_counterexample:
  "\<not> startswith ''ai21.com/?next=https://ai21.com'' ''https://''
   \<and> sitemap_url ''ai21.com/?next=https://ai21.com''
       = Inr ''ai21.com/?next=https://ai21.com/sitemap.xml''
   \<and> spec_sitemap_url ''ai21.com/?next=https://ai21.com''
       = ''https://ai21.com/?next=https://ai21.com/sitemap.xml''
   \<and> sitemap_url ''ai21.com/?next=https://ai21.com''
       \<noteq> Inr (spec_sitemap_url ''ai21.com/?next=https://ai21.com'')"
  by (simp add: sitemap_url_def spec_sitemap_url_def last_char_def)

text \<open>
  Claim C4, amended. For every website reference: if the string does not contain
  \<^verbatim>\<open>https://\<close> anywhere, \<^verbatim>\<open>https://\<close> is put in front of it; then, if the result does not
  contain \<^verbatim>\<open>sitemap.xml\<close> anywhere, \<^verbatim>\<open>sitemap.xml\<close> is appended, directly when the string
  ends in a slash and after a slash otherwise. No exception is raised. The four
  references of the specification map as it says.
\<close>

theorem C4_sitemap_url_by_containment:
  "sitemap_url website = Inr
     (let sitemap = (if (\<exists>ps ss. website = ps @ ''https://'' @ ss) then website
                     else ''https://'' @ website)
      in if (\<exists>ps ss. sitemap = ps @ ''sitemap.xml'' @ ss) then sitemap
         else if last sitemap = CHR ''/'' then sitemap @ ''sitemap.xml''
         else sitemap @ ''/sitemap.xml'')
   \<and> sitemap_url ''ai21.com'' = Inr ''https://ai21.com/sitemap.xml''
   \<and> sitemap_url ''https://ai21.com'' = Inr ''https://ai21.com/sitemap.xml''
   \<and> sitemap_url ''https://ai21.com/sitemap.xml'' = Inr ''https://ai21.com/sitemap.xml''
   \<and> sitemap_url ''ai21.com/'' = Inr ''https://ai21.com/sitemap.xml''"
proof -
  have "sitemap_url website = Inr
     (let sitemap = (if (\<exists>ps ss. website = ps @ ''https://'' @ ss) then website
                     else ''https://'' @ website)
      in if (\<exists>ps ss. sitemap = ps @ ''sitemap.xml'' @ ss) then sitemap
         else if last sitemap = CHR ''/'' then sitemap @ ''sitemap.xml''
         else sitemap @ ''/sitemap.xml'')"
    unfolding sitemap_url_str_in str_in_iff ..
  moreover have "sitemap_url ''ai21.com'' = Inr ''https://ai21.com/sitemap.xml''"
    by (simp add: sitemap_url_def last_char_def)
  moreover have "sitemap_url ''https://ai21.com'' = Inr ''https://ai21.com/sitemap.xml''"
    by (simp add: sitemap_url_def last_char_def)
  moreover have "sitemap_url ''https://ai21.com/sitemap.xml'' = Inr ''https://ai21.com/sitemap.xml''"
    by (simp add: sitemap_url_def last_char_def)
  moreover have "sitemap_url ''ai21.com/'' = Inr ''https://ai21.com/sitemap.xml''"
    by (simp add: sitemap_url_def last_char_def)
  ultimately show ?thesis by blast
qed

subsection \<open>The website name\<close>

lemma split_on_nonempty: "split_on sep s \<noteq> []"
  by (induction s) (auto split: list.splits)

lemma length_split_on: "length (split_on sep s) = Suc (count_list s sep)"
  by (induction s) (auto split: list.splits simp: split_on_nonempty)

lemma count_list_append: "count_list (xs @ ys) c = count_list xs c + count_list ys c"
  by (induction xs) auto

lemma str_in_two_slashes: "str_in ''https://'' s \<Longrightarrow> 2 \<le> count_list s (CHR ''/'')"
proof -
  assume "str_in ''https://'' s"
  then obtain ps ss where "s = ps @ ''https://'' @ ss"
    using str_in_iff by blast
  then show ?thesis
    by (simp add: count_list_append)
qed

lemma str_in_append: "str_in p s \<Longrightarrow> str_in p (s @ t)"
  unfolding str_in_iff by (metis append.assoc)

lemma sitemap_url_has_scheme:
  "\<exists>sitemap. sitemap_url website = Inr sitemap \<and> str_in ''https://'' sitemap"
proof -
  let ?s = "if str_in ''https://'' website then website else ''https://'' @ website"
  have "''https://'' @ website = [] @ ''https://'' @ website" by simp
  then have "str_in ''https://'' (''https://'' @ website)"
    unfolding str_in_iff by blast
  then have base: "str_in ''https://'' ?s" by simp
  show ?thesis
    unfolding sitemap_url_str_in Let_def
    using base str_in_append [OF base] by auto
qed

lemma website_name_of_defined:
  "str_in ''https://'' sitemap \<Longrightarrow> \<exists>website_name. website_name_of sitemap = Inr website_name"
  using str_in_two_slashes [of sitemap]
  by (simp add: website_name_of_def Let_def split_on_nonempty length_split_on)

subsection \<open>Validation of the request body\<close>

lemma check_required_loop_missing:
  "key \<in> set keys \<Longrightarrow> falsy (data key) \<Longrightarrow>
   \<exists>detail. check_required_loop data keys = Inl (HTTPException 400 detail)"
  by (induction keys) auto

text \<open>
  Claim C10. The scrape endpoint does not validate its request body: when the body has no
  \<^verbatim>\<open>text\<close> field, the handler ends with a TypeError raised by the normalisation, not with
  a 400 response. The query endpoint, given a body without \<^verbatim>\<open>query\<close>, answers with the
  400 exception of \<^verbatim>\<open>check_required\<close>.
\<close>

theorem C10_scrape_body_not_validated:
  "(data ''text'' = None \<longrightarrow> scrape_sitemap h data = Inl TypeError)
   \<and> (data ''query'' = None \<longrightarrow>
        (\<exists>detail. rag_query data uuid4 = Inl (HTTPException 400 detail)))"
proof (intro conjI impI)
  assume "data ''text'' = None"
  then show "scrape_sitemap h data = Inl TypeError"
    by (simp add: scrape_sitemap_def scrape_sitemap_url_def)
next
  assume "data ''query'' = None"
  then have "falsy (data ''query'')"
    by (simp add: falsy_def)
  moreover have "''query'' \<in> set [''website'', ''timestamp'', ''query'']"
    by simp
  ultimately obtain detail where
    "check_required_loop data [''website'', ''timestamp'', ''query'']
       = Inl (HTTPException 400 detail)"
    using check_required_loop_missing by blast
  then have "rag_query data uuid4 = Inl (HTTPException 400 detail)"
    unfolding rag_query_def check_required_def by simp
  then show "\<exists>detail. rag_query data uuid4 = Inl (HTTPException 400 detail)" ..
qed

text \<open>Claim C10 on a body that holds only a \<^verbatim>\<open>website\<close> field.\<close>

theorem C10_scrape_body_not_validated_witness:
  "scrape_sitemap (example_helper 0 True True) [''website'' \<mapsto> ''ai21.com''] = Inl TypeError
   \<and> (\<exists>detail. rag_query [''website'' \<mapsto> ''ai21.com''] ''id'' = Inl (HTTPException 400 detail))"
  using C10_scrape_body_not_validated [of "[''website'' \<mapsto> ''ai21.com'']" "example_helper 0 True True" "''id''"]
  by simp

text \<open>
  The missing field is the only way for the handler to raise: with a \<^verbatim>\<open>text\<close> field in
  the body, the normalisation and the split of the sitemap URL succeed and the streaming
  response is returned.
\<close>

theorem scrape_sitemap_raises_only_TypeError:
  "(data ''text'' = None \<longrightarrow> scrape_sitemap h data = Inl TypeError)
   \<and> (\<forall>website. data ''text'' = Some website \<longrightarrow>
        (\<exists>sitemap website_name.
           sitemap_url website = Inr sitemap \<and> website_name_of sitemap = Inr website_name
           \<and> scrape_sitemap h data
               = Inr (scraping_process h sitemap website_name (get_sitemap_attributes h sitemap))))"
proof (intro conjI impI allI)
  assume "data ''text'' = None"
  then show "scrape_sitemap h data = Inl TypeError"
    by (simp add: scrape_sitemap_def scrape_sitemap_url_def)
next
  fix website
  assume given: "data ''text'' = Some website"
  obtain sitemap where s: "sitemap_url website = Inr sitemap" "str_in ''https://'' sitemap"
    using sitemap_url_has_scheme by blast
  obtain website_name where w: "website_name_of sitemap = Inr website_name"
    using website_name_of_defined [OF s(2)] by blast
  have "scrape_sitemap h data
      = Inr (scraping_process h sitemap website_name (get_sitemap_attributes h sitemap))"
    by (simp add: scrape_sitemap_def scrape_sitemap_url_def given s(1) w)
  with s(1) w show "\<exists>sitemap website_name.
           sitemap_url website = Inr sitemap \<and> website_name_of sitemap = Inr website_name
           \<and> scrape_sitemap h data
               = Inr (scraping_process h sitemap website_name (get_sitemap_attributes h sitemap))"
    by blast
qed

theorem scrape_sitemap_raises_only_TypeError_witness:
  "scrape_sitemap (example_helper 0 True True) [''text'' \<mapsto> ''ai21.com'']
     = Inr (scraping_process (example_helper 0 True True) ''https://ai21.com/sitemap.xml''
              ''ai21.com'' [''/p1'', ''/p2'', ''/p3''])"
  using scrape_sitemap_raises_only_TypeError
    [of "[''text'' \<mapsto> ''ai21.com'']" "example_helper 0 True True"]
  by (simp add: sitemap_url_def last_char_def website_name_of_def example_helper_def)

subsection \<open>The loop over the pages\<close>

lemma fst_set_dict_set: "fst ` set (dict_set d k v) = insert k (fst ` set d)"
  by (induction d k v rule: dict_set.induct) auto

lemma set_dict_set_subset: "set (dict_set d k v) \<subseteq> insert (k, v) (set d)"
  by (induction d k v rule: dict_set.induct) auto

lemma distinct_dict_set: "distinct (map fst d) \<Longrightarrow> distinct (map fst (dict_set d k v))"
  by (induction d k v rule: dict_set.induct) (auto simp: fst_set_dict_set)

lemma fst_scrape_pages_Cons:
  "fst (scrape_pages h wn n i td (p # ps)) =
     Yield (str_nat (Suc i) @ '' of '' @ str_nat n @ '': '' @ qualify wn p @ NL) #
     Call_scrape_link (qualify wn p) #
     (case try_scrape h (Suc i) (qualify wn p) of
        Inl e \<Rightarrow> Yield (''Failed to scrape '' @ qualify wn p @ '': '' @ e @ NL) #
                 fst (scrape_pages h wn n (Suc i) td ps)
      | Inr t \<Rightarrow> fst (scrape_pages h wn n (Suc i) (dict_set td (qualify wn p) t) ps))"
  by (simp add: Let_def split: prod.splits sum.splits)

lemma snd_scrape_pages_Cons:
  "snd (scrape_pages h wn n i td (p # ps)) =
     (case try_scrape h (Suc i) (qualify wn p) of
        Inl e \<Rightarrow> snd (scrape_pages h wn n (Suc i) td ps)
      | Inr t \<Rightarrow> snd (scrape_pages h wn n (Suc i) (dict_set td (qualify wn p) t) ps))"
  by (simp add: Let_def split: prod.splits sum.splits)

declare scrape_pages.simps(2) [simp del]

lemma scrape_pages_calls:
  "[item. Call_scrape_link item \<leftarrow> fst (scrape_pages h wn n i td ps)] = map (qualify wn) ps"
  by (induction ps arbitrary: i td) (auto simp: fst_scrape_pages_Cons split: sum.splits)

lemma scrape_pages_only_scrapes:
  "ev \<in> set (fst (scrape_pages h wn n i td ps)) \<Longrightarrow> (\<exists>s. ev = Yield s) \<or> (\<exists>s. ev = Call_scrape_link s)"
  by (induction ps arbitrary: i td) (auto simp: fst_scrape_pages_Cons split: sum.splits)

lemma scrape_pages_progress_line:
  "k < length ps \<Longrightarrow>
   Yield (str_nat (i + Suc k) @ '' of '' @ str_nat n @ '': '' @ qualify wn (ps ! k) @ NL)
     \<in> set (fst (scrape_pages h wn n i td ps))"
proof (induction ps arbitrary: i td k)
  case Nil
  then show ?case by simp
next
  case (Cons p ps)
  show ?case
  proof (cases k)
    case 0
    then show ?thesis by (auto simp: fst_scrape_pages_Cons split: sum.splits)
  next
    case (Suc k')
    then have "k' < length ps" using Cons.prems by simp
    from Cons.IH [OF this, of "Suc i"] Suc show ?thesis
      by (auto simp: fst_scrape_pages_Cons split: sum.splits)
  qed
qed

lemma scrape_pages_failure_line:
  "k < length ps \<Longrightarrow> try_scrape h (i + Suc k) (qualify wn (ps ! k)) = Inl e \<Longrightarrow>
   Yield (''Failed to scrape '' @ qualify wn (ps ! k) @ '': '' @ e @ NL)
     \<in> set (fst (scrape_pages h wn n i td ps))"
proof (induction ps arbitrary: i td k)
  case Nil
  then show ?case by simp
next
  case (Cons p ps)
  show ?case
  proof (cases k)
    case 0
    then show ?thesis using Cons.prems by (auto simp: fst_scrape_pages_Cons split: sum.splits)
  next
    case (Suc k')
    then have "k' < length ps" "try_scrape h (Suc i + Suc k') (qualify wn (ps ! k')) = Inl e"
      using Cons.prems by simp_all
    from Cons.IH [OF this] Suc show ?thesis
      by (auto simp: fst_scrape_pages_Cons split: sum.splits)
  qed
qed

lemma scrape_pages_keys:
  "fst ` set (snd (scrape_pages h wn n i td ps)) =
     fst ` set td \<union> {qualify wn (ps ! j) | j. j < length ps \<and>
                        (\<exists>t. try_scrape h (i + Suc j) (qualify wn (ps ! j)) = Inr t)}"
proof (induction ps arbitrary: i td)
  case Nil
  then show ?case by simp
next
  case (Cons p ps)
  let ?S = "\<lambda>i ps. {qualify wn (ps ! j) | j. j < length ps \<and>
                        (\<exists>t. try_scrape h (i + Suc j) (qualify wn (ps ! j)) = Inr t)}"
  have shift: "?S i (p # ps) =
      (if (\<exists>t. try_scrape h (Suc i) (qualify wn p) = Inr t) then {qualify wn p} else {}) \<union> ?S (Suc i) ps"
    (is "?L = ?R")
  proof (rule set_eqI, rule iffI)
    fix x
    assume "x \<in> ?L"
    then obtain j where j: "j < Suc (length ps)" "x = qualify wn ((p # ps) ! j)"
      "\<exists>t. try_scrape h (i + Suc j) (qualify wn ((p # ps) ! j)) = Inr t"
      by auto
    show "x \<in> ?R"
    proof (cases j)
      case 0
      then show ?thesis using j by auto
    next
      case (Suc j')
      then have "j' < length ps \<and> x = qualify wn (ps ! j')
        \<and> (\<exists>t. try_scrape h (Suc i + Suc j') (qualify wn (ps ! j')) = Inr t)"
        using j by simp
      then have "x \<in> ?S (Suc i) ps" by blast
      then show ?thesis by simp
    qed
  next
    fix x
    assume "x \<in> ?R"
    then consider (head) "x = qualify wn p" "\<exists>t. try_scrape h (Suc i) (qualify wn p) = Inr t"
      | (tail) "x \<in> ?S (Suc i) ps"
      by (auto split: if_splits)
    then show "x \<in> ?L"
    proof cases
      case head
      then have "0 < length (p # ps) \<and> x = qualify wn ((p # ps) ! 0)
        \<and> (\<exists>t. try_scrape h (i + Suc 0) (qualify wn ((p # ps) ! 0)) = Inr t)"
        by simp
      then show ?thesis by blast
    next
      case tail
      then obtain j where "j < length ps" "x = qualify wn (ps ! j)"
        "\<exists>t. try_scrape h (Suc i + Suc j) (qualify wn (ps ! j)) = Inr t"
        by auto
      then have "Suc j < length (p # ps) \<and> x = qualify wn ((p # ps) ! Suc j)
        \<and> (\<exists>t. try_scrape h (i + Suc (Suc j)) (qualify wn ((p # ps) ! Suc j)) = Inr t)"
        by simp
      then show ?thesis by blast
    qed
  qed
  show ?case
  proof (cases "try_scrape h (Suc i) (qualify wn p)")
    case (Inl e)
    then show ?thesis
      unfolding shift using Cons.IH [of "Suc i" td]
      by (simp add: snd_scrape_pages_Cons)
  next
    case (Inr t)
    then show ?thesis
      unfolding shift using Cons.IH [of "Suc i" "dict_set td (qualify wn p) t"]
      by (simp add: snd_scrape_pages_Cons fst_set_dict_set)
  qed
qed

lemma scrape_pages_values:
  "(u, t) \<in> set (snd (scrape_pages h wn n i td ps)) \<Longrightarrow>
   (u, t) \<in> set td \<or>
   (\<exists>j. j < length ps \<and> u = qualify wn (ps ! j) \<and> try_scrape h (i + Suc j) u = Inr t)"
proof (induction ps arbitrary: i td)
  case Nil
  then show ?case by simp
next
  case (Cons p ps)
  show ?case
  proof (cases "try_scrape h (Suc i) (qualify wn p)")
    case (Inl e)
    then have "(u, t) \<in> set (snd (scrape_pages h wn n (Suc i) td ps))"
      using Cons.prems by (simp add: snd_scrape_pages_Cons)
    from Cons.IH [OF this] show ?thesis by fastforce
  next
    case (Inr t')
    then have "(u, t) \<in> set (snd (scrape_pages h wn n (Suc i) (dict_set td (qualify wn p) t') ps))"
      using Cons.prems by (simp add: snd_scrape_pages_Cons)
    from Cons.IH [OF this] consider
      "(u, t) \<in> set (dict_set td (qualify wn p) t')"
      | j where "j < length ps" "u = qualify wn (ps ! j)" "try_scrape h (Suc i + Suc j) u = Inr t"
      by blast
    then show ?thesis
    proof cases
      case 1
      then have "(u, t) = (qualify wn p, t') \<or> (u, t) \<in> set td"
        using set_dict_set_subset by fastforce
      then show ?thesis using Inr by fastforce
    next
      case 2
      then show ?thesis by fastforce
    qed
  qed
qed

lemma scrape_pages_distinct:
  "distinct (map fst td) \<Longrightarrow> distinct (map fst (snd (scrape_pages h wn n i td ps)))"
  by (induction ps arbitrary: i td)
     (auto simp: snd_scrape_pages_Cons distinct_dict_set split: sum.splits)


lemma calls_append:
  "[item. Call_scrape_link item \<leftarrow> xs @ ys]
     = [item. Call_scrape_link item \<leftarrow> xs] @ [item. Call_scrape_link item \<leftarrow> ys]"
  by simp

lemma persist_and_ingest_no_scrape:
  "[item. Call_scrape_link item \<leftarrow> persist_and_ingest h sitemap wn td] = []"
  by (simp add: persist_and_ingest_def Let_def comp_def)

lemma scraping_process_nonempty:
  "df \<noteq> [] \<Longrightarrow>
   scraping_process h sitemap wn df =
     fst (scrape_pages h wn (length df) 0 [] df)
     @ persist_and_ingest h sitemap wn (snd (scrape_pages h wn (length df) 0 [] df))
     @ [Yield (''All steps completed successfully.'' @ NL)]"
  by (simp add: scraping_process_def split: prod.splits)

lemma last_yielded_scraping_process:
  "last (yielded (scraping_process h sitemap wn df)) = ''All steps completed successfully.'' @ NL"
  by (simp add: scraping_process_def yielded_append split: prod.splits)

lemma store_call_in_persist_and_ingest:
  "Call_store_to_weaviate f \<in> set (persist_and_ingest h sitemap wn td) \<longleftrightarrow>
     f = output_file_name h wn \<and> save_to_gcloud h td (output_file_name h wn)
     \<and> download_blob_from_gcloud h (output_file_name h wn)"
  by (auto simp: persist_and_ingest_def Let_def)

lemma store_call_not_in_scrape_pages:
  "Call_store_to_weaviate f \<notin> set (fst (scrape_pages h wn n i td ps))"
  using scrape_pages_only_scrapes by blast

lemmas run_simps = scraping_process_def scrape_pages.simps persist_and_ingest_def
  output_file_name_def try_scrape_def qualify_def example_helper_def str_nat.simps Let_def


subsection \<open>Runs of the generator\<close>

text \<open>
  Claim C8. When the sitemap has no pages, the run is the notice that 0 pages were found
  followed by the completion line, and nothing else: no call to save or store is made, and
  the generator reaches its end.
\<close>

theorem C8_zero_pages:
  "scraping_process h sitemap website_name [] =
     [Yield (''Found 0 pages to scrape in '' @ sitemap @ NL),
      Yield (''All steps completed successfully.'' @ NL)]
   \<and> yielded (scraping_process h sitemap website_name []) =
     [''Found 0 pages to scrape in '' @ sitemap @ NL,
      ''All steps completed successfully.'' @ NL]"
  by (simp add: scraping_process_def)


text \<open>
  Claim C6. In a run over the pages \<open>df\<close> where scraping page \<open>k\<close> raises an exception
  with text \<open>e\<close>: the stream holds the failure line of that page with \<open>e\<close> in it;
  \<^verbatim>\<open>scrape_link\<close> is called for every page of the sitemap, in order, and the progress
  line of every page is in the stream; the table handed to \<^verbatim>\<open>save_to_gcloud\<close> has one row
  for each URL that was scraped successfully, with a text some successful scrape of it
  returned, and no row for any other URL; the last line of the stream is the completion
  line.
\<close>

theorem C6_page_failure_skipped:
  assumes "k < length df"
    and "try_scrape h (Suc k) (qualify website_name (df ! k)) = Inl e"
  shows
    "(''Failed to scrape '' @ qualify website_name (df ! k) @ '': '' @ e @ NL)
        \<in> set (yielded (scraping_process h sitemap website_name df))
     \<and> [item. Call_scrape_link item \<leftarrow> scraping_process h sitemap website_name df]
         = map (qualify website_name) df
     \<and> (\<forall>j < length df.
          (str_nat (Suc j) @ '' of '' @ str_nat (length df) @ '': ''
             @ qualify website_name (df ! j) @ NL)
            \<in> set (yielded (scraping_process h sitemap website_name df)))
     \<and> Call_save_to_gcloud (snd (scrape_pages h website_name (length df) 0 [] df))
          (output_file_name h website_name)
         \<in> set (scraping_process h sitemap website_name df)
     \<and> fst ` set (snd (scrape_pages h website_name (length df) 0 [] df))
         = {qualify website_name (df ! j) | j. j < length df \<and>
              (\<exists>t. try_scrape h (Suc j) (qualify website_name (df ! j)) = Inr t)}
     \<and> (\<forall>(u, t) \<in> set (snd (scrape_pages h website_name (length df) 0 [] df)).
          \<exists>j < length df. u = qualify website_name (df ! j) \<and> try_scrape h (Suc j) u = Inr t)
     \<and> distinct (map fst (snd (scrape_pages h website_name (length df) 0 [] df)))
     \<and> last (yielded (scraping_process h sitemap website_name df))
         = ''All steps completed successfully.'' @ NL"
proof -
  let ?run = "scraping_process h sitemap website_name df"
  let ?loop = "scrape_pages h website_name (length df) 0 [] df"
  from assms have ne: "df \<noteq> []" by auto
  note run = scraping_process_nonempty [OF ne, of h sitemap website_name]
  have fail: "(''Failed to scrape '' @ qualify website_name (df ! k) @ '': '' @ e @ NL)
        \<in> set (yielded ?run)"
    using scrape_pages_failure_line [OF assms(1), of h 0 website_name e "length df" "[]"] assms(2)
    by (simp add: run set_yielded)
  have calls: "[item. Call_scrape_link item \<leftarrow> ?run] = map (qualify website_name) df"
    unfolding run calls_append
    using scrape_pages_calls [of h website_name "length df" 0 "[]" df]
      persist_and_ingest_no_scrape [of h sitemap website_name "snd ?loop"]
    by simp
  have progress: "\<forall>j < length df.
          (str_nat (Suc j) @ '' of '' @ str_nat (length df) @ '': ''
             @ qualify website_name (df ! j) @ NL) \<in> set (yielded ?run)"
    using scrape_pages_progress_line [of _ df 0 "length df" website_name h "[]"]
    by (simp add: run set_yielded)
  have save: "Call_save_to_gcloud (snd ?loop) (output_file_name h website_name) \<in> set ?run"
    by (simp add: run persist_and_ingest_def Let_def)
  have keys: "fst ` set (snd ?loop)
         = {qualify website_name (df ! j) | j. j < length df \<and>
              (\<exists>t. try_scrape h (Suc j) (qualify website_name (df ! j)) = Inr t)}"
    using scrape_pages_keys [of h website_name "length df" 0 "[]" df] by simp
  have vals: "\<forall>(u, t) \<in> set (snd ?loop).
          \<exists>j < length df. u = qualify website_name (df ! j) \<and> try_scrape h (Suc j) u = Inr t"
    using scrape_pages_values [of _ _ h website_name "length df" 0 "[]" df] by auto
  have dist: "distinct (map fst (snd ?loop))"
    by (rule scrape_pages_distinct) simp
  show ?thesis
    by (intro conjI fail calls progress save keys vals dist last_yielded_scraping_process)
qed

text \<open>
  Claim C6 on the site of three pages where page 2 times out: the table holds pages 1
  and 3.
\<close>

theorem C6_page_failure_skipped_witness:
  "try_scrape (example_helper 2 True True) 2 ''https://a.com/p2'' = Inl ''timed out''
   \<and> (''Failed to scrape https://a.com/p2: timed out'' @ NL)
        \<in> set (yielded (scraping_process (example_helper 2 True True)
                    ''https://a.com/sitemap.xml'' ''a.com'' [''/p1'', ''/p2'', ''/p3'']))
   \<and> yielded (scraping_process (example_helper 2 True True)
                ''https://a.com/sitemap.xml'' ''a.com'' [''/p1'', ''/p2'', ''/p3''])
       = [''1 of 3: https://a.com/p1'' @ NL,
          ''2 of 3: https://a.com/p2'' @ NL,
          ''Failed to scrape https://a.com/p2: timed out'' @ NL,
          ''3 of 3: https://a.com/p3'' @ NL,
          ''Finished saving to GCP Bucket'' @ NL,
          ''Chunking and preparing documents to insert into vector store.'' @ NL,
          ''Inserted 3 documents'' @ NL,
          ''All steps completed successfully.'' @ NL]
   \<and> snd (scrape_pages (example_helper 2 True True) ''a.com'' 3 0 [] [''/p1'', ''/p2'', ''/p3''])
       = [(''https://a.com/p1'', ''text of https://a.com/p1''),
          (''https://a.com/p3'', ''text of https://a.com/p3'')]"
proof -
  have k: "1 < length [''/p1'', ''/p2'', ''/p3'']"
    by simp
  have failure: "try_scrape (example_helper 2 True True) (Suc 1)
                   (qualify ''a.com'' ([''/p1'', ''/p2'', ''/p3''] ! 1)) = Inl ''timed out''"
    by (simp add: try_scrape_def qualify_def example_helper_def)
  have "(''Failed to scrape https://a.com/p2: timed out'' @ NL)
        \<in> set (yielded (scraping_process (example_helper 2 True True)
                    ''https://a.com/sitemap.xml'' ''a.com'' [''/p1'', ''/p2'', ''/p3'']))"
    using C6_page_failure_skipped [OF k failure, of "''https://a.com/sitemap.xml''"]
    by (simp add: qualify_def)
  moreover have "try_scrape (example_helper 2 True True) 2 ''https://a.com/p2'' = Inl ''timed out''"
    by (simp add: try_scrape_def example_helper_def)
  moreover have "yielded (scraping_process (example_helper 2 True True)
                ''https://a.com/sitemap.xml'' ''a.com'' [''/p1'', ''/p2'', ''/p3''])
       = [''1 of 3: https://a.com/p1'' @ NL,
          ''2 of 3: https://a.com/p2'' @ NL,
          ''Failed to scrape https://a.com/p2: timed out'' @ NL,
          ''3 of 3: https://a.com/p3'' @ NL,
          ''Finished saving to GCP Bucket'' @ NL,
          ''Chunking and preparing documents to insert into vector store.'' @ NL,
          ''Inserted 3 documents'' @ NL,
          ''All steps completed successfully.'' @ NL]"
    by (simp add: run_simps)
  moreover have "snd (scrape_pages (example_helper 2 True True) ''a.com'' 3 0 [] [''/p1'', ''/p2'', ''/p3''])
       = [(''https://a.com/p1'', ''text of https://a.com/p1''),
          (''https://a.com/p3'', ''text of https://a.com/p3'')]"
    by (simp add: run_simps)
  ultimately show ?thesis by (intro conjI)
qed

text \<open>
  The runs with pages, written out: when saving fails, and when saving and the download
  both succeed. A call of \<^verbatim>\<open>store_to_weaviate\<close> occurs in a run at one place only.
\<close>

lemma split_at_unique:
  "xs @ a # ys = pre @ b # post \<Longrightarrow> b \<notin> set xs \<Longrightarrow> b \<notin> set ys \<Longrightarrow>
   pre = xs \<and> a = b \<and> post = ys"
proof (induction xs arbitrary: pre)
  case Nil
  then show ?case by (cases pre) auto
next
  case (Cons x xs)
  then show ?case by (cases pre) auto
qed

lemma scraping_process_persist_failure:
  assumes "df \<noteq> []"
    and "\<not> save_to_gcloud h (snd (scrape_pages h website_name (length df) 0 [] df))
            (output_file_name h website_name)"
  shows "scraping_process h sitemap website_name df =
     fst (scrape_pages h website_name (length df) 0 [] df)
     @ [Call_save_to_gcloud (snd (scrape_pages h website_name (length df) 0 [] df))
          (output_file_name h website_name),
        Yield (''The scraping process did not complete as expected for '' @ sitemap @ NL),
        Yield (''All steps completed successfully.'' @ NL)]"
  using assms by (simp add: scraping_process_nonempty persist_and_ingest_def Let_def)

lemma scraping_process_ingests:
  assumes "df \<noteq> []"
    and "save_to_gcloud h (snd (scrape_pages h website_name (length df) 0 [] df))
            (output_file_name h website_name)"
    and "download_blob_from_gcloud h (output_file_name h website_name)"
  shows "scraping_process h sitemap website_name df =
     (fst (scrape_pages h website_name (length df) 0 [] df)
      @ [Call_save_to_gcloud (snd (scrape_pages h website_name (length df) 0 [] df))
          (output_file_name h website_name),
        Yield (''Finished saving to GCP Bucket'' @ NL),
        Call_download_blob_from_gcloud (output_file_name h website_name),
        Yield (''Chunking and preparing documents to insert into vector store.'' @ NL)])
     @ Call_store_to_weaviate (output_file_name h website_name)
     # (map Yield (store_to_weaviate h (output_file_name h website_name))
        @ [Yield (''All steps completed successfully.'' @ NL)])"
  using assms by (simp add: scraping_process_nonempty persist_and_ingest_def Let_def)

lemma store_call_in_scraping_process:
  "Call_store_to_weaviate f \<in> set (scraping_process h sitemap website_name df) \<longleftrightarrow>
     df \<noteq> [] \<and> f = output_file_name h website_name
     \<and> save_to_gcloud h (snd (scrape_pages h website_name (length df) 0 [] df))
          (output_file_name h website_name)
     \<and> download_blob_from_gcloud h (output_file_name h website_name)"
proof (cases "df = []")
  case True
  then show ?thesis by (simp add: scraping_process_def)
next
  case False
  then show ?thesis
    by (auto simp: scraping_process_nonempty store_call_not_in_scrape_pages
        store_call_in_persist_and_ingest)
qed

lemma store_call_position:
  assumes "scraping_process h sitemap website_name df = pre @ Call_store_to_weaviate f # post"
  shows "df \<noteq> [] \<and> f = output_file_name h website_name
     \<and> save_to_gcloud h (snd (scrape_pages h website_name (length df) 0 [] df))
          (output_file_name h website_name)
     \<and> download_blob_from_gcloud h (output_file_name h website_name)
     \<and> pre = fst (scrape_pages h website_name (length df) 0 [] df)
         @ [Call_save_to_gcloud (snd (scrape_pages h website_name (length df) 0 [] df))
              (output_file_name h website_name),
            Yield (''Finished saving to GCP Bucket'' @ NL),
            Call_download_blob_from_gcloud (output_file_name h website_name),
            Yield (''Chunking and preparing documents to insert into vector store.'' @ NL)]
     \<and> post = map Yield (store_to_weaviate h (output_file_name h website_name))
         @ [Yield (''All steps completed successfully.'' @ NL)]"
proof -
  have "Call_store_to_weaviate f \<in> set (scraping_process h sitemap website_name df)"
    using assms by simp
  then have facts: "df \<noteq> []" "f = output_file_name h website_name"
    "save_to_gcloud h (snd (scrape_pages h website_name (length df) 0 [] df))
          (output_file_name h website_name)"
    "download_blob_from_gcloud h (output_file_name h website_name)"
    using store_call_in_scraping_process by blast+
  let ?xs = "fst (scrape_pages h website_name (length df) 0 [] df)
         @ [Call_save_to_gcloud (snd (scrape_pages h website_name (length df) 0 [] df))
              (output_file_name h website_name),
            Yield (''Finished saving to GCP Bucket'' @ NL),
            Call_download_blob_from_gcloud (output_file_name h website_name),
            Yield (''Chunking and preparing documents to insert into vector store.'' @ NL)]"
  let ?ys = "map Yield (store_to_weaviate h (output_file_name h website_name))
         @ [Yield (''All steps completed successfully.'' @ NL)]"
  have eq: "?xs @ Call_store_to_weaviate (output_file_name h website_name) # ?ys
            = pre @ Call_store_to_weaviate f # post"
    using scraping_process_ingests [OF facts(1) facts(3) facts(4), of sitemap] assms by simp
  have "Call_store_to_weaviate f \<notin> set ?xs"
    by (simp add: store_call_not_in_scrape_pages)
  moreover have "Call_store_to_weaviate f \<notin> set ?ys"
    by auto
  ultimately have "pre = ?xs \<and> post = ?ys"
    using split_at_unique [OF eq] by blast
  with facts show ?thesis by blast
qed

text \<open>
  Claim C7. When saving the table fails, the run is the page loop, the call of
  \<^verbatim>\<open>save_to_gcloud\<close>, the failure line that names the sitemap and the completion line,
  in this order and with nothing after: the failure line is in the stream, and neither
  \<^verbatim>\<open>download_blob_from_gcloud\<close> nor \<^verbatim>\<open>store_to_weaviate\<close> is called. In any run, wherever
  \<^verbatim>\<open>store_to_weaviate\<close> is called, there were pages, what precedes the call is the page
  loop, then the call of \<^verbatim>\<open>save_to_gcloud\<close> that succeeded, then the call of
  \<^verbatim>\<open>download_blob_from_gcloud\<close> that succeeded, and what follows are the updates and the
  completion line. The page loop itself only yields and calls \<^verbatim>\<open>scrape_link\<close>. The last
  event of every run, failed or not, is the yield of the completion line.
\<close>

theorem C7_persist_failure_stops_ingestion:
  "(df \<noteq> [] \<and> \<not> save_to_gcloud h (snd (scrape_pages h website_name (length df) 0 [] df))
                    (output_file_name h website_name)
      \<longrightarrow> scraping_process h sitemap website_name df
             = fst (scrape_pages h website_name (length df) 0 [] df)
               @ [Call_save_to_gcloud (snd (scrape_pages h website_name (length df) 0 [] df))
                    (output_file_name h website_name),
                  Yield (''The scraping process did not complete as expected for ''
                         @ sitemap @ NL),
                  Yield (''All steps completed successfully.'' @ NL)]
          \<and> (''The scraping process did not complete as expected for '' @ sitemap @ NL)
               \<in> set (yielded (scraping_process h sitemap website_name df))
          \<and> (\<forall>f. Call_store_to_weaviate f \<notin> set (scraping_process h sitemap website_name df))
          \<and> (\<forall>f. Call_download_blob_from_gcloud f
                 \<notin> set (scraping_process h sitemap website_name df)))
   \<and> (\<forall>pre f post.
         scraping_process h sitemap website_name df = pre @ Call_store_to_weaviate f # post
         \<longrightarrow> df \<noteq> []
            \<and> f = output_file_name h website_name
            \<and> save_to_gcloud h (snd (scrape_pages h website_name (length df) 0 [] df))
                 (output_file_name h website_name)
            \<and> download_blob_from_gcloud h (output_file_name h website_name)
            \<and> pre = fst (scrape_pages h website_name (length df) 0 [] df)
                @ [Call_save_to_gcloud (snd (scrape_pages h website_name (length df) 0 [] df))
                     (output_file_name h website_name),
                   Yield (''Finished saving to GCP Bucket'' @ NL),
                   Call_download_blob_from_gcloud (output_file_name h website_name),
                   Yield (''Chunking and preparing documents to insert into vector store.''
                          @ NL)]
            \<and> post = map Yield (store_to_weaviate h (output_file_name h website_name))
                @ [Yield (''All steps completed successfully.'' @ NL)])
   \<and> (\<forall>f. Call_store_to_weaviate f \<in> set (scraping_process h sitemap website_name df)
          \<longrightarrow> df \<noteq> []
             \<and> save_to_gcloud h (snd (scrape_pages h website_name (length df) 0 [] df))
                  (output_file_name h website_name)
             \<and> download_blob_from_gcloud h (output_file_name h website_name))
   \<and> (\<forall>ev \<in> set (fst (scrape_pages h website_name (length df) 0 [] df)).
         (\<exists>s. ev = Yield s) \<or> (\<exists>s. ev = Call_scrape_link s))
   \<and> last (scraping_process h sitemap website_name df)
       = Yield (''All steps completed successfully.'' @ NL)
   \<and> last (yielded (scraping_process h sitemap website_name df))
       = ''All steps completed successfully.'' @ NL"
proof (intro conjI impI allI ballI)
  assume a: "df \<noteq> [] \<and> \<not> save_to_gcloud h (snd (scrape_pages h website_name (length df) 0 [] df))
                    (output_file_name h website_name)"
  then show exact: "scraping_process h sitemap website_name df
             = fst (scrape_pages h website_name (length df) 0 [] df)
               @ [Call_save_to_gcloud (snd (scrape_pages h website_name (length df) 0 [] df))
                    (output_file_name h website_name),
                  Yield (''The scraping process did not complete as expected for ''
                         @ sitemap @ NL),
                  Yield (''All steps completed successfully.'' @ NL)]"
    using scraping_process_persist_failure by blast
  show "(''The scraping process did not complete as expected for '' @ sitemap @ NL)
             \<in> set (yielded (scraping_process h sitemap website_name df))"
    unfolding exact by (simp add: yielded_append)
  fix f
  from a show "Call_store_to_weaviate f \<notin> set (scraping_process h sitemap website_name df)"
    by (simp add: store_call_in_scraping_process)
  have "Call_download_blob_from_gcloud f
          \<notin> set (fst (scrape_pages h website_name (length df) 0 [] df))"
    using scrape_pages_only_scrapes by blast
  then show "Call_download_blob_from_gcloud f
          \<notin> set (scraping_process h sitemap website_name df)"
    unfolding exact by simp
next
  fix pre f post
  assume split: "scraping_process h sitemap website_name df
                   = pre @ Call_store_to_weaviate f # post"
  note pos = store_call_position [OF split]
  from pos show "df \<noteq> []" by (rule conjunct1)
  from pos show "f = output_file_name h website_name" by blast
  from pos show "save_to_gcloud h (snd (scrape_pages h website_name (length df) 0 [] df))
                 (output_file_name h website_name)" by blast
  from pos show "download_blob_from_gcloud h (output_file_name h website_name)" by blast
  from pos show "pre = fst (scrape_pages h website_name (length df) 0 [] df)
                @ [Call_save_to_gcloud (snd (scrape_pages h website_name (length df) 0 [] df))
                     (output_file_name h website_name),
                   Yield (''Finished saving to GCP Bucket'' @ NL),
                   Call_download_blob_from_gcloud (output_file_name h website_name),
                   Yield (''Chunking and preparing documents to insert into vector store.''
                          @ NL)]" by blast
  from pos show "post = map Yield (store_to_weaviate h (output_file_name h website_name))
                @ [Yield (''All steps completed successfully.'' @ NL)]" by blast
next
  fix f
  assume b: "Call_store_to_weaviate f \<in> set (scraping_process h sitemap website_name df)"
  then show "df \<noteq> []"
    and "save_to_gcloud h (snd (scrape_pages h website_name (length df) 0 [] df))
                  (output_file_name h website_name)"
    and "download_blob_from_gcloud h (output_file_name h website_name)"
    by (simp_all add: store_call_in_scraping_process)
next
  fix ev
  assume "ev \<in> set (fst (scrape_pages h website_name (length df) 0 [] df))"
  then show "(\<exists>s. ev = Yield s) \<or> (\<exists>s. ev = Call_scrape_link s)"
    by (rule scrape_pages_only_scrapes)
next
  show "last (scraping_process h sitemap website_name df)
       = Yield (''All steps completed successfully.'' @ NL)"
    by (simp add: scraping_process_def)
next
  show "last (yielded (scraping_process h sitemap website_name df))
       = ''All steps completed successfully.'' @ NL"
    by (rule last_yielded_scraping_process)
qed

text \<open>
  Claim C7 on the site of three pages: the whole run when saving fails, and the run that
  reaches \<^verbatim>\<open>store_to_weaviate\<close>, split at that call.
\<close>

theorem C7_persist_failure_stops_ingestion_witness:
  "scraping_process (example_helper 0 False True) ''https://a.com/sitemap.xml'' ''a.com''
       [''/p1'', ''/p2'', ''/p3'']
     = [Yield (''1 of 3: https://a.com/p1'' @ NL),
        Call_scrape_link ''https://a.com/p1'',
        Yield (''2 of 3: https://a.com/p2'' @ NL),
        Call_scrape_link ''https://a.com/p2'',
        Yield (''3 of 3: https://a.com/p3'' @ NL),
        Call_scrape_link ''https://a.com/p3'',
        Call_save_to_gcloud
          [(''https://a.com/p1'', ''text of https://a.com/p1''),
           (''https://a.com/p2'', ''text of https://a.com/p2''),
           (''https://a.com/p3'', ''text of https://a.com/p3'')]
          ''a.com_2023-10-06T18-11-24.csv'',
        Yield (''The scraping process did not complete as expected for https://a.com/sitemap.xml''
               @ NL),
        Yield (''All steps completed successfully.'' @ NL)]
   \<and> scraping_process (example_helper 0 True True) ''https://a.com/sitemap.xml'' ''a.com''
       [''/p1'', ''/p2'', ''/p3'']
     = [Yield (''1 of 3: https://a.com/p1'' @ NL),
        Call_scrape_link ''https://a.com/p1'',
        Yield (''2 of 3: https://a.com/p2'' @ NL),
        Call_scrape_link ''https://a.com/p2'',
        Yield (''3 of 3: https://a.com/p3'' @ NL),
        Call_scrape_link ''https://a.com/p3'',
        Call_save_to_gcloud
          [(''https://a.com/p1'', ''text of https://a.com/p1''),
           (''https://a.com/p2'', ''text of https://a.com/p2''),
           (''https://a.com/p3'', ''text of https://a.com/p3'')]
          ''a.com_2023-10-06T18-11-24.csv'',
        Yield (''Finished saving to GCP Bucket'' @ NL),
        Call_download_blob_from_gcloud ''a.com_2023-10-06T18-11-24.csv'',
        Yield (''Chunking and preparing documents to insert into vector store.'' @ NL)]
       @ Call_store_to_weaviate ''a.com_2023-10-06T18-11-24.csv''
       # [Yield (''Inserted 3 documents'' @ NL),
          Yield (''All steps completed successfully.'' @ NL)]
   \<and> download_blob_from_gcloud (example_helper 0 True True)
        (output_file_name (example_helper 0 True True) ''a.com'')"
proof -
  let ?df = "[''/p1'', ''/p2'', ''/p3'']"
  let ?sm = "''https://a.com/sitemap.xml''"
  have failed: "?df \<noteq> []
        \<and> \<not> save_to_gcloud (example_helper 0 False True)
              (snd (scrape_pages (example_helper 0 False True) ''a.com'' (length ?df) 0 [] ?df))
              (output_file_name (example_helper 0 False True) ''a.com'')"
    by (simp add: example_helper_def)
  have first: "scraping_process (example_helper 0 False True) ?sm ''a.com'' ?df
      = fst (scrape_pages (example_helper 0 False True) ''a.com'' (length ?df) 0 [] ?df)
        @ [Call_save_to_gcloud
             (snd (scrape_pages (example_helper 0 False True) ''a.com'' (length ?df) 0 [] ?df))
             (output_file_name (example_helper 0 False True) ''a.com''),
           Yield (''The scraping process did not complete as expected for '' @ ?sm @ NL),
           Yield (''All steps completed successfully.'' @ NL)]"
    using C7_persist_failure_stops_ingestion
      [of ?df "example_helper 0 False True" "''a.com''" ?sm] failed
    by blast
  have split: "scraping_process (example_helper 0 True True) ?sm ''a.com'' ?df
     = [Yield (''1 of 3: https://a.com/p1'' @ NL),
        Call_scrape_link ''https://a.com/p1'',
        Yield (''2 of 3: https://a.com/p2'' @ NL),
        Call_scrape_link ''https://a.com/p2'',
        Yield (''3 of 3: https://a.com/p3'' @ NL),
        Call_scrape_link ''https://a.com/p3'',
        Call_save_to_gcloud
          [(''https://a.com/p1'', ''text of https://a.com/p1''),
           (''https://a.com/p2'', ''text of https://a.com/p2''),
           (''https://a.com/p3'', ''text of https://a.com/p3'')]
          ''a.com_2023-10-06T18-11-24.csv'',
        Yield (''Finished saving to GCP Bucket'' @ NL),
        Call_download_blob_from_gcloud ''a.com_2023-10-06T18-11-24.csv'',
        Yield (''Chunking and preparing documents to insert into vector store.'' @ NL)]
       @ Call_store_to_weaviate ''a.com_2023-10-06T18-11-24.csv''
       # [Yield (''Inserted 3 documents'' @ NL),
          Yield (''All steps completed successfully.'' @ NL)]"
    by (simp add: run_simps)
  have flag: "download_blob_from_gcloud (example_helper 0 True True)
        (output_file_name (example_helper 0 True True) ''a.com'')"
    using C7_persist_failure_stops_ingestion
      [of ?df "example_helper 0 True True" "''a.com''" ?sm] split
    by blast
  have loop: "scrape_pages (example_helper 0 False True) ''a.com'' (length ?df) 0 [] ?df
      = ([Yield (''1 of 3: https://a.com/p1'' @ NL),
          Call_scrape_link ''https://a.com/p1'',
          Yield (''2 of 3: https://a.com/p2'' @ NL),
          Call_scrape_link ''https://a.com/p2'',
          Yield (''3 of 3: https://a.com/p3'' @ NL),
          Call_scrape_link ''https://a.com/p3''],
         [(''https://a.com/p1'', ''text of https://a.com/p1''),
          (''https://a.com/p2'', ''text of https://a.com/p2''),
          (''https://a.com/p3'', ''text of https://a.com/p3'')])"
    by (simp add: run_simps)
  have name: "output_file_name (example_helper 0 False True) ''a.com''
      = ''a.com_2023-10-06T18-11-24.csv''"
    by (simp add: output_file_name_def example_helper_def)
  show ?thesis
    using first split flag unfolding loop name by simp
qed

text \<open>
  Claim C3, evaluated on the code. Saving succeeds and the download fails, for the body
  \<^verbatim>\<open>{"text": "a.com"}\<close>: the notice of the failure is printed on the console of the
  server and is not among the lines yielded to the caller, which end with the completion
  line. \<^verbatim>\<open>store_to_weaviate\<close> is not called.
\<close>

theorem C3_reload_failure_only_printed:
  "scrape_sitemap (example_helper 0 True False) [''text'' \<mapsto> ''a.com'']
     = Inr [Yield (''1 of 3: https://a.com/p1'' @ NL),
            Call_scrape_link ''https://a.com/p1'',
            Yield (''2 of 3: https://a.com/p2'' @ NL),
            Call_scrape_link ''https://a.com/p2'',
            Yield (''3 of 3: https://a.com/p3'' @ NL),
            Call_scrape_link ''https://a.com/p3'',
            Call_save_to_gcloud
              [(''https://a.com/p1'', ''text of https://a.com/p1''),
               (''https://a.com/p2'', ''text of https://a.com/p2''),
               (''https://a.com/p3'', ''text of https://a.com/p3'')]
              ''a.com_2023-10-06T18-11-24.csv'',
            Yield (''Finished saving to GCP Bucket'' @ NL),
            Call_download_blob_from_gcloud ''a.com_2023-10-06T18-11-24.csv'',
            Print (''Error occured while downloading file to gcloud bucket.'' @ NL),
            Yield (''All steps completed successfully.'' @ NL)]"
  by (simp add: scrape_sitemap_def scrape_sitemap_url_def sitemap_url_def last_char_def
      website_name_of_def run_simps)


text \<open>
  The same holds for every run with pages in which saving succeeds and the download
  fails: after the lines of the loop the stream holds the line about the save and the
  completion line, the notice is printed, and \<^verbatim>\<open>store_to_weaviate\<close> is not called.
\<close>

theorem reload_failure_stream:
  assumes "df \<noteq> []"
    and "save_to_gcloud h (snd (scrape_pages h website_name (length df) 0 [] df))
           (output_file_name h website_name)"
    and "\<not> download_blob_from_gcloud h (output_file_name h website_name)"
  shows "yielded (scraping_process h sitemap website_name df)
           = yielded (fst (scrape_pages h website_name (length df) 0 [] df))
             @ [''Finished saving to GCP Bucket'' @ NL, ''All steps completed successfully.'' @ NL]
         \<and> Print (''Error occured while downloading file to gcloud bucket.'' @ NL)
             \<in> set (scraping_process h sitemap website_name df)
         \<and> (\<forall>f. Call_store_to_weaviate f \<notin> set (scraping_process h sitemap website_name df))"
  using assms
  by (simp add: scraping_process_nonempty yielded_append persist_and_ingest_def Let_def
      store_call_not_in_scrape_pages)


theorem reload_failure_stream_witness:
  "yielded (scraping_process (example_helper 0 True False) ''https://a.com/sitemap.xml''
              ''a.com'' [''/p1'', ''/p2'', ''/p3''])
     = [''1 of 3: https://a.com/p1'' @ NL,
        ''2 of 3: https://a.com/p2'' @ NL,
        ''3 of 3: https://a.com/p3'' @ NL,
        ''Finished saving to GCP Bucket'' @ NL,
        ''All steps completed successfully.'' @ NL]"
proof -
  have "[''/p1'', ''/p2'', ''/p3''] \<noteq> []"
    and "save_to_gcloud (example_helper 0 True False)
           (snd (scrape_pages (example_helper 0 True False) ''a.com''
                   (length [''/p1'', ''/p2'', ''/p3'']) 0 [] [''/p1'', ''/p2'', ''/p3'']))
           (output_file_name (example_helper 0 True False) ''a.com'')"
    and "\<not> download_blob_from_gcloud (example_helper 0 True False)
             (output_file_name (example_helper 0 True False) ''a.com'')"
    by (simp_all add: example_helper_def)
  from reload_failure_stream [OF this, of "''https://a.com/sitemap.xml''"]
  show ?thesis
    by (simp add: run_simps)
qed

end
